theory Spec2Isabelle
  imports Main "HOL-Library.Sublist"
begin

section \<open>The Stacks gatherer (core/gather/gatherers/stacks.js)\<close>

text \<open>
  The gatherer reports which JavaScript libraries run in a page and which server software
  answered the document request. The embedding follows the source function by function:
  \<^item> \<open>detectLibraries\<close> runs inside the page: a loop over the signature catalog, each probe
    raced against a timer of 1000 ms inside a \<open>try\<close>/\<open>catch\<close>;
  \<^item> \<open>detectServer\<close> matches the lower-cased document headers against the table \<open>SERVERS\<close>;
  \<^item> \<open>Stacks.getDocumentHeaders\<close> scans the devtools log;
  \<^item> \<open>Stacks.collectStacks\<close> and \<open>getArtifact\<close> put the parts together.

  JavaScript exceptions and promise rejections are values of type \<open>exn\<close>; a promise is
  represented by the way it settles.
\<close>

subsection \<open>Strings\<close>

text \<open>
  Header names and values are taken to be ASCII strings (HTTP field names are ASCII tokens),
  so \<open>String.prototype.toLowerCase\<close> maps \<open>A\<close>..\<open>Z\<close> to \<open>a\<close>..\<open>z\<close> and leaves every other
  character as it is.
\<close>

definition toLowerCase_char :: "char \<Rightarrow> char" where
  "toLowerCase_char c =
     (case map_of (zip ''ABCDEFGHIJKLMNOPQRSTUVWXYZ'' ''abcdefghijklmnopqrstuvwxyz'') c of
        Some l \<Rightarrow> l
      | None \<Rightarrow> c)"

definition toLowerCase :: "string \<Rightarrow> string" where
  "toLowerCase s = map toLowerCase_char s"

text \<open>\<open>s.startsWith(p)\<close>.\<close>

definition startsWith :: "string \<Rightarrow> string \<Rightarrow> bool" where
  "startsWith s p = prefix p s"

subsection \<open>Numbers\<close>

text \<open>
  A number of JavaScript is a double. The safe integers, those of magnitude up to
  \<open>Number.MAX_SAFE_INTEGER\<close> (\<open>2^53 - 1\<close>), are doubles themselves, and \<open>String\<close> prints
  the decimal digits of such a number, with a minus sign in front when it is negative
  (\<open>-0\<close> is printed as \<open>0\<close> and is not told apart from \<open>0\<close>). Every other number, that is
  a fraction, a number of larger magnitude, \<open>NaN\<close> or an infinity, is printed by the
  floating-point formatting of \<open>Number::toString\<close>, which gives a different string for each
  of them: such a number is represented by the string that \<open>String\<close> prints for it, as in
  \<open>Other_number ''1.5''\<close>, \<open>Other_number ''1e+21''\<close> and \<open>Other_number ''NaN''\<close>.
\<close>

typedef safe_integer = "{n :: int. abs n \<le> 9007199254740991}"
  by (rule exI [of _ 0]) simp

datatype number = Integer safe_integer | Other_number string

fun digits :: "nat \<Rightarrow> string" where
  "digits n =
     (if n < 10 then [''0123456789'' ! n]
      else digits (n div 10) @ [''0123456789'' ! (n mod 10)])"

declare digits.simps [simp del]

definition String_integer :: "int \<Rightarrow> string" where
  "String_integer n = (if n < 0 then CHR ''-'' # digits (nat (- n)) else digits (nat n))"

text \<open>\<open>String(x)\<close> for a number \<open>x\<close>.\<close>

definition String_number :: "number \<Rightarrow> string" where
  "String_number x =
     (case x of Integer k \<Rightarrow> String_integer (Rep_safe_integer k) | Other_number s \<Rightarrow> s)"

subsection \<open>Exceptions and promises\<close>

datatype exn = TypeError | Error string

text \<open>
  The state in which an awaited promise ends: resolved with a value, rejected with an
  exception, or never settled.
\<close>

datatype 'a outcome = Resolved 'a | Rejected exn | Pending

subsection \<open>Data\<close>

text \<open>The \<open>version\<close> reported by a probe: \<open>string|number|null\<close>, or absent.\<close>

datatype version = VString string | VNumber number | VNull | VUndefined

text \<open>\<open>JSLibraryDetectorTestResult\<close>: \<open>false\<close> or an object with a \<open>version\<close>.\<close>

datatype test_result = RFalse | RObject version

text \<open>
  What \<open>lib.test(window)\<close> does: throw at once, return a plain value, or return a promise
  that is fulfilled or rejected after some milliseconds, or that never settles.
\<close>

datatype settlement = Fulfils test_result | Rejects exn

datatype probe =
    Throws exn
  | Returns test_result
  | Promise_after nat settlement
  | Promise_never

text \<open>\<open>JSLibraryDetectorTest\<close>; \<open>npm\<close> is \<open>string|null\<close>.\<close>

record JSLibraryDetectorTest =
  test_id :: string
  test_icon :: string
  test_url :: string
  test_npm :: "string option"
  test_fn :: probe

text \<open>
  The catalog \<open>d41d8cd98f00b204e9800998ecf8427e_LibraryDetectorTests\<close>, as
  \<open>Object.entries\<close> enumerates it.
\<close>

type_synonym catalog = "(string \<times> JSLibraryDetectorTest) list"

record JSLibrary =
  lib_id :: string
  lib_name :: string
  lib_version :: version
  lib_npm :: "string option"

text \<open>
  \<open>LH.Artifacts.DetectedStack\<close>; an absent (\<open>undefined\<close>) field is \<open>None\<close>.
\<close>

record DetectedStack =
  detector :: string
  stack_id :: string
  stack_name :: string
  stack_version :: "string option"
  stack_npm :: "string option"

subsection \<open>detectServer\<close>

text \<open>
  A header value is a string in a well-typed \<open>Network.Headers\<close>; any other value has no
  \<open>toLowerCase\<close> method. The headers are listed as \<open>Object.entries\<close> enumerates them.
\<close>

datatype header_value = Str string | NotStr

type_synonym headers = "(string \<times> header_value) list"

record server_signature =
  server_id :: string
  server_name :: string
  server_headers :: "(string \<times> string) list"

definition SERVERS :: "server_signature list" where
  "SERVERS =
    [\<lparr>server_id = ''akamai'', server_name = ''Akamai'',
        server_headers = [(''x-akamai-transformed'', '''')]\<rparr>,
     \<lparr>server_id = ''apache'', server_name = ''Apache'',
        server_headers = [(''server'', ''apache'')]\<rparr>,
     \<lparr>server_id = ''cloudflare'', server_name = ''Cloudflare'',
        server_headers = [(''server'', ''cloudflare'')]\<rparr>,
     \<lparr>server_id = ''litespeed'', server_name = ''LiteSpeed'',
        server_headers = [(''server'', ''litespeed'')]\<rparr>,
     \<lparr>server_id = ''microsoft-iis'', server_name = ''Microsoft IIS'',
        server_headers = [(''server'', ''microsoft-iis'')]\<rparr>,
     \<lparr>server_id = ''nginx'', server_name = ''Nginx'',
        server_headers = [(''server'', ''nginx'')]\<rparr>,
     \<lparr>server_id = ''openresty'', server_name = ''OpenResty'',
        server_headers = [(''server'', ''openresty'')]\<rparr>,
     \<lparr>server_id = ''squarespace'', server_name = ''Squarespace'',
        server_headers = [(''server'', ''squarespace'')]\<rparr>,
     \<lparr>server_id = ''vercel'', server_name = ''Vercel'',
        server_headers = [(''server'', ''vercel'')]\<rparr>,
     \<lparr>server_id = ''wix'', server_name = ''WIX'',
        server_headers = [(''x-wix-request-id'', '''')]\<rparr>]"

text \<open>
  \<open>Object.entries(headers).map(([key, value]) => [key.toLowerCase(), value.toLowerCase()])\<close>:
  a value without \<open>toLowerCase\<close> raises a \<open>TypeError\<close>.
\<close>

fun lower_entries :: "headers \<Rightarrow> exn + (string \<times> string) list" where
  "lower_entries [] = Inr []"
| "lower_entries ((key, value) # rest) =
     (case value of
        NotStr \<Rightarrow> Inl TypeError
      | Str v \<Rightarrow>
          (case lower_entries rest of
             Inl e \<Rightarrow> Inl e
           | Inr es \<Rightarrow> Inr ((toLowerCase key, toLowerCase v) # es)))"

text \<open>\<open>Object.fromEntries\<close>: the entries are stored in order, a later one replacing an
  earlier one of the same key.\<close>

definition fromEntries :: "(string \<times> string) list \<Rightarrow> (string \<rightharpoonup> string)" where
  "fromEntries es = foldl (\<lambda>m (k, v). m(k \<mapsto> v)) Map.empty es"

text \<open>
  The callback of \<open>some\<close>:
  \<open>documentHeaders[header] && documentHeaders[header].startsWith(value)\<close>.
  A missing header is \<open>undefined\<close> and an empty value is \<open>""\<close>; both are falsy.
\<close>

definition header_matches :: "(string \<rightharpoonup> string) \<Rightarrow> string \<times> string \<Rightarrow> bool" where
  "header_matches documentHeaders m =
     (case documentHeaders (fst m) of
        None \<Rightarrow> False
      | Some v \<Rightarrow> v \<noteq> [] \<and> startsWith v (snd m))"

text \<open>\<open>Object.entries(server.headers).some(...)\<close>.\<close>

definition matched :: "(string \<rightharpoonup> string) \<Rightarrow> server_signature \<Rightarrow> bool" where
  "matched documentHeaders server =
     list_ex (header_matches documentHeaders) (server_headers server)"

text \<open>The loop \<open>for (const server of SERVERS)\<close>, returning at the first match.\<close>

fun detectServer_loop :: "(string \<rightharpoonup> string) \<Rightarrow> server_signature list \<Rightarrow> DetectedStack option" where
  "detectServer_loop documentHeaders [] = None"
| "detectServer_loop documentHeaders (server # rest) =
     (if matched documentHeaders server
      then Some \<lparr>detector = ''server'', stack_id = server_id server,
                  stack_name = server_name server, stack_version = None, stack_npm = None\<rparr>
      else detectServer_loop documentHeaders rest)"

text \<open>
  \<open>detectServer(headers)\<close>; \<open>None\<close> as argument is \<open>undefined\<close>, on which
  \<open>Object.entries\<close> raises a \<open>TypeError\<close>. The result \<open>Inr None\<close> is the function
  ending without a \<open>return\<close>.
\<close>

definition detectServer :: "headers option \<Rightarrow> exn + DetectedStack option" where
  "detectServer hdrs =
     (case hdrs of
        None \<Rightarrow> Inl TypeError
      | Some hs \<Rightarrow>
          (case lower_entries hs of
             Inl e \<Rightarrow> Inl e
           | Inr es \<Rightarrow> Inr (detectServer_loop (fromEntries es) SERVERS)))"

subsection \<open>Stacks.getDocumentHeaders\<close>

text \<open>
  An entry of the devtools log has a \<open>method\<close> and \<open>params\<close>. In a well-typed log every
  \<open>Network.responseReceived\<close> entry has \<open>params\<close> with a \<open>type\<close> and a \<open>response\<close> that
  carries \<open>headers\<close>; \<open>None\<close> stands for a part that is missing (\<open>undefined\<close>), on which a
  property access raises a \<open>TypeError\<close>.
\<close>

record response =
  response_headers :: "headers option"

record params =
  params_type :: string
  params_response :: "response option"

record log_entry =
  entry_method :: string
  entry_params :: "params option"

type_synonym devtoolsLog = "log_entry list"

text \<open>The result \<open>Inr (Some [])\<close> is the empty object \<open>{}\<close>.\<close>

fun getDocumentHeaders :: "devtoolsLog \<Rightarrow> exn + headers option" where
  "getDocumentHeaders [] = Inr (Some [])"
| "getDocumentHeaders (entry # rest) =
     (if entry_method entry \<noteq> ''Network.responseReceived'' then getDocumentHeaders rest
      else
        (case entry_params entry of
           None \<Rightarrow> Inl TypeError
         | Some p \<Rightarrow>
             if params_type p \<noteq> ''Document'' then getDocumentHeaders rest
             else
               (case params_response p of
                  None \<Rightarrow> Inl TypeError
                | Some r \<Rightarrow> Inr (response_headers r))))"

subsection \<open>detectLibraries\<close>

text \<open>
  The timers of the page: \<open>setTimeout\<close> hands out a fresh positive handle, and every call
  of \<open>setTimeout\<close> and \<open>clearTimeout\<close> is recorded in order.
\<close>

datatype timer_call = SetTimeout nat nat | ClearTimeout nat

record timers =
  last_handle :: nat
  calls :: "timer_call list"

definition setTimeout :: "nat \<Rightarrow> timers \<Rightarrow> nat \<times> timers" where
  "setTimeout delay ts =
     (let h = Suc (last_handle ts)
      in (h, \<lparr>last_handle = h, calls = calls ts @ [SetTimeout h delay]\<rparr>))"

definition clearTimeout :: "nat \<Rightarrow> timers \<Rightarrow> timers" where
  "clearTimeout h ts = ts\<lparr>calls := calls ts @ [ClearTimeout h]\<rparr>"

text \<open>
  \<open>await Promise.race([lib.test(window), timeoutPromise])\<close>, where the timer resolves
  \<open>timeoutPromise\<close> to \<open>false\<close> after \<open>delay\<close> milliseconds. A probe that throws does so
  before the race starts; a plain value wins the race at once; a promise wins when it
  settles before the timer is due. \<open>Inl\<close> is the exception that the \<open>await\<close> raises.
\<close>

fun await_race :: "probe \<Rightarrow> nat \<Rightarrow> exn + test_result" where
  "await_race (Throws e) delay = Inl e"
| "await_race (Returns r) delay = Inr r"
| "await_race (Promise_after t s) delay =
     (if t < delay then (case s of Fulfils r \<Rightarrow> Inr r | Rejects e \<Rightarrow> Inl e) else Inr RFalse)"
| "await_race Promise_never delay = Inr RFalse"

text \<open>
  The loop \<open>for (const [name, lib] of Object.entries(libraryDetectorTests))\<close> with its
  \<open>try\<close>/\<open>catch\<close>. The timer is created before the probe is called; an exception leaves the
  \<open>try\<close> block at the \<open>await\<close>, so that neither \<open>clearTimeout\<close> nor \<open>push\<close> runs.
\<close>

fun detectLibraries_loop ::
  "catalog \<Rightarrow> JSLibrary list \<Rightarrow> timers \<Rightarrow> JSLibrary list \<times> timers" where
  "detectLibraries_loop [] libraries ts = (libraries, ts)"
| "detectLibraries_loop ((name, lib) # rest) libraries ts =
     (let (timeout, ts1) = setTimeout 1000 ts in
      case await_race (test_fn lib) 1000 of
        Inl e \<Rightarrow> detectLibraries_loop rest libraries ts1
      | Inr result \<Rightarrow>
          (let ts2 = (if timeout \<noteq> 0 then clearTimeout timeout ts1 else ts1) in
           case result of
             RFalse \<Rightarrow> detectLibraries_loop rest libraries ts2
           | RObject v \<Rightarrow>
               detectLibraries_loop rest
                 (libraries @
                    [\<lparr>lib_id = test_id lib, lib_name = name, lib_version = v,
                       lib_npm = test_npm lib\<rparr>])
                 ts2))"

definition detectLibraries_run :: "catalog \<Rightarrow> JSLibrary list \<times> timers" where
  "detectLibraries_run cat = detectLibraries_loop cat [] \<lparr>last_handle = 0, calls = []\<rparr>"

definition detectLibraries :: "catalog \<Rightarrow> JSLibrary list" where
  "detectLibraries cat = fst (detectLibraries_run cat)"

subsection \<open>Stacks.collectStacks and getArtifact\<close>

text \<open>
  The execution context is a collaborator: \<open>evaluate\<close> is given the function to run and
  gives back a promise of whatever the remote side answers, an array of libraries or
  something else; an exception raised by the call itself counts as a rejection, since the
  caller is asynchronous. The context \<open>page cat\<close> runs the function in a page that holds
  the catalog \<open>cat\<close> and answers with its result.
\<close>

datatype evaluated = NotAnArray | Libraries "JSLibrary list"

record executionContext =
  evaluate :: "(catalog \<Rightarrow> JSLibrary list) \<Rightarrow> evaluated outcome"

definition page :: "catalog \<Rightarrow> executionContext" where
  "page cat = \<lparr>evaluate = (\<lambda>f. Resolved (Libraries (f cat)))\<rparr>"

text \<open>\<open>x || undefined\<close> for \<open>x\<close> a string or \<open>null\<close>.\<close>

definition or_undefined :: "string option \<Rightarrow> string option" where
  "or_undefined x = (case x of None \<Rightarrow> None | Some s \<Rightarrow> if s = [] then None else Some s)"

text \<open>The callback of \<open>jsLibraries.map\<close>.\<close>

definition stack_of_library :: "JSLibrary \<Rightarrow> DetectedStack" where
  "stack_of_library lib =
     \<lparr>detector = ''js'', stack_id = lib_id lib, stack_name = lib_name lib,
      stack_version =
        (case lib_version lib of
           VNumber n \<Rightarrow> Some (String_number n)
         | VString s \<Rightarrow> or_undefined (Some s)
         | VNull \<Rightarrow> None
         | VUndefined \<Rightarrow> None),
      stack_npm = or_undefined (lib_npm lib)\<rparr>"

text \<open>
  \<open>collectStacks\<close> is asynchronous: an exception inside it rejects its promise. The calls
  of \<open>log.time\<close> and \<open>log.timeEnd\<close> only report timing.
\<close>

definition collectStacks :: "executionContext \<Rightarrow> devtoolsLog \<Rightarrow> DetectedStack list outcome" where
  "collectStacks ectx devtoolsLog =
     (case evaluate ectx detectLibraries of
        Pending \<Rightarrow> Pending
      | Rejected e \<Rightarrow> Rejected e
      | Resolved NotAnArray \<Rightarrow> Rejected TypeError
      | Resolved (Libraries jsLibraries) \<Rightarrow>
          (let stacks = map stack_of_library jsLibraries in
           case getDocumentHeaders devtoolsLog of
             Inl e \<Rightarrow> Rejected e
           | Inr hdrs \<Rightarrow>
               (case detectServer hdrs of
                  Inl e \<Rightarrow> Rejected e
                | Inr None \<Rightarrow> Resolved stacks
                | Inr (Some detectedServer) \<Rightarrow> Resolved (stacks @ [detectedServer]))))"

record gatherer_context =
  driver_executionContext :: executionContext
  dependencies_DevtoolsLog :: devtoolsLog

definition getArtifact :: "gatherer_context \<Rightarrow> DetectedStack list outcome" where
  "getArtifact ctx =
     (case collectStacks (driver_executionContext ctx) (dependencies_DevtoolsLog ctx) of
        Resolved stacks \<Rightarrow> Resolved stacks
      | Rejected e \<Rightarrow> Resolved []
      | Pending \<Rightarrow> Pending)"

subsection \<open>Notions used to state the properties\<close>

text \<open>The handles given out by \<open>setTimeout\<close> and those passed to \<open>clearTimeout\<close>.\<close>

fun created :: "timer_call list \<Rightarrow> nat list" where
  "created [] = []"
| "created (SetTimeout h d # cs) = h # created cs"
| "created (ClearTimeout h # cs) = created cs"

fun cleared :: "timer_call list \<Rightarrow> nat list" where
  "cleared [] = []"
| "cleared (SetTimeout h d # cs) = cleared cs"
| "cleared (ClearTimeout h # cs) = h # cleared cs"

text \<open>A probe matches when the race ends with a truthy result.\<close>

definition probe_matches :: "probe \<Rightarrow> bool" where
  "probe_matches p =
     (case await_race p 1000 of Inl e \<Rightarrow> False | Inr RFalse \<Rightarrow> False | Inr (RObject v) \<Rightarrow> True)"

text \<open>
  What one catalog entry is to report: nothing when the race raises or ends with \<open>false\<close>,
  and otherwise one library with the id and the npm name that the entry declares, the
  catalog key as its name and the version of the result.
\<close>

definition reported :: "string \<times> JSLibraryDetectorTest \<Rightarrow> JSLibrary list" where
  "reported entry =
     (case await_race (test_fn (snd entry)) 1000 of
        Inl e \<Rightarrow> []
      | Inr RFalse \<Rightarrow> []
      | Inr (RObject v) \<Rightarrow>
          [\<lparr>lib_id = test_id (snd entry), lib_name = fst entry, lib_version = v,
             lib_npm = test_npm (snd entry)\<rparr>])"






text \<open>
  The falsy values of a \<open>version\<close>: \<open>""\<close>, the numbers \<open>0\<close> and \<open>NaN\<close>, \<open>null\<close> and
  \<open>undefined\<close>.
\<close>

definition falsy :: "version \<Rightarrow> bool" where
  "falsy v =
     (case v of
        VString s \<Rightarrow> s = []
      | VNumber (Integer k) \<Rightarrow> Rep_safe_integer k = 0
      | VNumber (Other_number r) \<Rightarrow> r = ''NaN''
      | VNull \<Rightarrow> True
      | VUndefined \<Rightarrow> True)"

text \<open>
  A well-typed header mapping has string values only. For such headers the object
  \<open>documentHeaders\<close> that \<open>detectServer\<close> builds is \<open>documentHeaders hs\<close>.
\<close>

definition typed_headers :: "(string \<times> string) list \<Rightarrow> headers" where
  "typed_headers hs = map (\<lambda>(k, v). (k, Str v)) hs"

definition documentHeaders :: "(string \<times> string) list \<Rightarrow> (string \<rightharpoonup> string)" where
  "documentHeaders hs = fromEntries (map (\<lambda>(k, v). (toLowerCase k, toLowerCase v)) hs)"

text \<open>
  The specification's reading of a header matcher. \<open>header_lookup\<close> is the value of the
  named header, names compared without regard to case, the last one winning when several
  names collide; \<open>spec_header_matches\<close> asks that the header exists and that its
  lower-cased value starts with the required substring.
\<close>

definition header_lookup :: "(string \<times> string) list \<Rightarrow> string \<Rightarrow> string option" where
  "header_lookup hs header =
     (let es = filter (\<lambda>(k, v). toLowerCase k = toLowerCase header) hs
      in if es = [] then None else Some (snd (last es)))"

definition spec_header_matches :: "(string \<times> string) list \<Rightarrow> string \<times> string \<Rightarrow> bool" where
  "spec_header_matches hs m =
     (case header_lookup hs (fst m) of
        None \<Rightarrow> False
      | Some v \<Rightarrow> startsWith (toLowerCase v) (snd m))"

text \<open>
  The log entries that \<open>getDocumentHeaders\<close> looks for, and the entries that have the
  parts which their method promises.
\<close>

definition is_document_response :: "log_entry \<Rightarrow> bool" where
  "is_document_response entry =
     (entry_method entry = ''Network.responseReceived'' \<and>
      (case entry_params entry of None \<Rightarrow> False | Some p \<Rightarrow> params_type p = ''Document''))"

definition well_typed_entry :: "log_entry \<Rightarrow> bool" where
  "well_typed_entry entry =
     (entry_method entry = ''Network.responseReceived'' \<longrightarrow>
      (case entry_params entry of
         None \<Rightarrow> False
       | Some p \<Rightarrow> params_type p = ''Document'' \<longrightarrow> params_response p \<noteq> None))"

subsection \<open>Example inputs\<close>

definition example_react :: JSLibraryDetectorTest where
  "example_react =
     \<lparr>test_id = ''react'', test_icon = ''react'', test_url = ''https://reactjs.org/'',
      test_npm = Some ''react'',
      test_fn = Returns (RObject (VNumber (Integer (Abs_safe_integer 3))))\<rparr>"

definition example_broken :: JSLibraryDetectorTest where
  "example_broken =
     \<lparr>test_id = ''broken'', test_icon = ''broken'', test_url = ''https://example.com/'',
      test_npm = None, test_fn = Throws (Error ''boom'')\<rparr>"

definition example_rejecting :: JSLibraryDetectorTest where
  "example_rejecting =
     \<lparr>test_id = ''rejecting'', test_icon = ''rejecting'', test_url = ''https://example.com/'',
      test_npm = None, test_fn = Promise_after 10 (Rejects (Error ''boom''))\<rparr>"

definition example_hanging :: JSLibraryDetectorTest where
  "example_hanging =
     \<lparr>test_id = ''hanging'', test_icon = ''hanging'', test_url = ''https://example.com/'',
      test_npm = None, test_fn = Promise_never\<rparr>"

definition example_vue :: JSLibraryDetectorTest where
  "example_vue =
     \<lparr>test_id = ''vue'', test_icon = ''vue'', test_url = ''https://vuejs.org/'',
      test_npm = Some ''vue'', test_fn = Promise_after 20 (Fulfils (RObject (VString ''2.6.1'')))\<rparr>"

definition example_unversioned :: JSLibraryDetectorTest where
  "example_unversioned =
     \<lparr>test_id = ''lit'', test_icon = ''lit'', test_url = ''https://lit.dev/'',
      test_npm = Some [], test_fn = Returns (RObject (VString []))\<rparr>"

definition example_unnamed :: JSLibraryDetectorTest where
  "example_unnamed =
     \<lparr>test_id = [], test_icon = ''icon'', test_url = ''https://example.com/'',
      test_npm = None, test_fn = Returns (RObject VNull)\<rparr>"






definition example_catalog :: catalog where
  "example_catalog =
     [(''React'', example_react), (''Broken'', example_broken), (''Vue'', example_vue)]"

definition script_entry :: log_entry where
  "script_entry =
     \<lparr>entry_method = ''Network.responseReceived'',
      entry_params = Some \<lparr>params_type = ''Script'',
        params_response = Some \<lparr>response_headers = Some [(''server'', Str ''apache'')]\<rparr>\<rparr>\<rparr>"

definition document_entry :: log_entry where
  "document_entry =
     \<lparr>entry_method = ''Network.responseReceived'',
      entry_params = Some \<lparr>params_type = ''Document'',
        params_response = Some \<lparr>response_headers = Some [(''Server'', Str ''cloudflare'')]\<rparr>\<rparr>\<rparr>"

definition malformed_entry :: log_entry where
  "malformed_entry = \<lparr>entry_method = ''Network.responseReceived'', entry_params = None\<rparr>"

definition example_log :: devtoolsLog where
  "example_log = [script_entry, document_entry]"

definition rejecting_context :: gatherer_context where
  "rejecting_context =
     \<lparr>driver_executionContext = \<lparr>evaluate = (\<lambda>f. Rejected (Error ''context destroyed''))\<rparr>,
      dependencies_DevtoolsLog = example_log\<rparr>"

definition malformed_log_context :: gatherer_context where
  "malformed_log_context =
     \<lparr>driver_executionContext = page example_catalog,
      dependencies_DevtoolsLog = [malformed_entry]\<rparr>"

definition example_stacks :: "DetectedStack list" where
  "example_stacks =
     [\<lparr>detector = ''js'', stack_id = ''react'', stack_name = ''React'',
        stack_version = Some ''3'', stack_npm = Some ''react''\<rparr>,
      \<lparr>detector = ''js'', stack_id = ''vue'', stack_name = ''Vue'',
        stack_version = Some ''2.6.1'', stack_npm = Some ''vue''\<rparr>,
      \<lparr>detector = ''server'', stack_id = ''cloudflare'', stack_name = ''Cloudflare'',
        stack_version = None, stack_npm = None\<rparr>]"

section \<open>Auxiliary facts\<close>

subsection \<open>Strings and numbers\<close>

lemma toLowerCase_Nil_iff: "toLowerCase v = [] \<longleftrightarrow> v = []"
  by (simp add: toLowerCase_def)













subsection \<open>The server detector\<close>

lemma fromEntries_Nil: "fromEntries [] = Map.empty"
  by (simp add: fromEntries_def)

lemma fromEntries_snoc: "fromEntries (es @ [(k, v)]) = (fromEntries es)(k \<mapsto> v)"
  by (simp add: fromEntries_def)

lemma lower_entries_typed:
  "lower_entries (typed_headers hs) = Inr (map (\<lambda>(k, v). (toLowerCase k, toLowerCase v)) hs)"
  by (induction hs) (auto simp: typed_headers_def)

lemma detectServer_typed:
  "detectServer (Some (typed_headers hs)) = Inr (detectServer_loop (documentHeaders hs) SERVERS)"
  by (simp add: detectServer_def lower_entries_typed documentHeaders_def)

text \<open>Looking a lower-case name up in \<open>documentHeaders\<close> finds the last header of that name.\<close>

lemma documentHeaders_lookup:
  "documentHeaders hs (toLowerCase header) = map_option toLowerCase (header_lookup hs header)"
proof (induction hs rule: rev_induct)
  case Nil
  show ?case by (simp add: documentHeaders_def header_lookup_def fromEntries_Nil)
next
  case (snoc x xs)
  obtain k v where x: "x = (k, v)" by (cases x)
  have step: "documentHeaders (xs @ [(k, v)]) = (documentHeaders xs)(toLowerCase k \<mapsto> toLowerCase v)"
    by (simp add: documentHeaders_def fromEntries_snoc)
  show ?case
  proof (cases "toLowerCase k = toLowerCase header")
    case True
    then show ?thesis
      by (simp add: step header_lookup_def x)
  next
    case False
    then have "documentHeaders (xs @ [x]) (toLowerCase header) = documentHeaders xs (toLowerCase header)"
      by (simp add: x step)
    moreover from False have "header_lookup (xs @ [x]) header = header_lookup xs header"
      by (simp add: header_lookup_def x)
    ultimately show ?thesis using snoc.IH by simp
  qed
qed

lemma detectServer_loop_None:
  "(\<forall>s\<in>set table. \<not> matched dh s) \<Longrightarrow> detectServer_loop dh table = None"
  by (induction table) simp_all

lemma detectServer_loop_first:
  "i < length table \<Longrightarrow> matched dh (table ! i) \<Longrightarrow> (\<forall>j<i. \<not> matched dh (table ! j)) \<Longrightarrow>
   detectServer_loop dh table =
     Some \<lparr>detector = ''server'', stack_id = server_id (table ! i),
            stack_name = server_name (table ! i), stack_version = None, stack_npm = None\<rparr>"
proof (induction table arbitrary: i)
  case Nil
  then show ?case by simp
next
  case (Cons s table)
  show ?case
  proof (cases i)
    case 0
    with Cons.prems show ?thesis by simp
  next
    case (Suc k)
    with Cons.prems have "\<not> matched dh s" by auto
    moreover from Suc Cons.prems have "k < length table" "matched dh (table ! k)"
      "\<forall>j<k. \<not> matched dh (table ! j)" by auto
    ultimately show ?thesis using Cons.IH [of k] Suc by simp
  qed
qed

lemma detectServer_loop_server:
  "detectServer_loop dh table = Some s \<Longrightarrow>
     detector s = ''server'' \<and> (\<exists>sig\<in>set table. stack_id s = server_id sig)"
  by (induction table) (auto split: if_splits)

lemma detectServer_Some:
  assumes "detectServer hdrs = Inr (Some s)"
  shows "detector s = ''server'' \<and> stack_id s \<noteq> []"
proof -
  from assms obtain dh where "detectServer_loop dh SERVERS = Some s"
    by (auto simp: detectServer_def split: option.splits sum.splits)
  from detectServer_loop_server [OF this]
  have d: "detector s = ''server''" and "\<exists>sig\<in>set SERVERS. stack_id s = server_id sig" by auto
  then obtain sig where "sig \<in> set SERVERS" "stack_id s = server_id sig" by auto
  then have "stack_id s \<noteq> []" by (auto simp: SERVERS_def)
  with d show ?thesis by simp
qed

subsection \<open>The document headers\<close>

lemma getDocumentHeaders_skip:
  assumes "\<forall>e\<in>set pre. well_typed_entry e" and "\<forall>e\<in>set pre. \<not> is_document_response e"
  shows "getDocumentHeaders (pre @ rest) = getDocumentHeaders rest"
  using assms
  by (induction pre) (auto simp: well_typed_entry_def is_document_response_def split: option.splits)

subsection \<open>The library detector\<close>

lemma created_append: "created (xs @ ys) = created xs @ created ys"
  by (induction xs rule: created.induct) simp_all

lemma cleared_append: "cleared (xs @ ys) = cleared xs @ cleared ys"
  by (induction xs rule: cleared.induct) simp_all

text \<open>What the loop pushes does not depend on the timers or on what was pushed before.\<close>

lemma loop_libraries:
  "fst (detectLibraries_loop cat libraries ts) =
     libraries @ concat (map (\<lambda>e. fst (detectLibraries_loop [e] [] ts0)) cat)"
  by (induction cat libraries ts rule: detectLibraries_loop.induct)
     (auto simp: Let_def split: prod.splits sum.splits test_result.splits)

lemma detectLibraries_concat:
  "detectLibraries cat = concat (map (\<lambda>e. detectLibraries [e]) cat)"
  unfolding detectLibraries_def detectLibraries_run_def
  using loop_libraries [of cat "[]" "\<lparr>last_handle = 0, calls = []\<rparr>" "\<lparr>last_handle = 0, calls = []\<rparr>"]
  by simp

lemma detectLibraries_append:
  "detectLibraries (xs @ ys) = detectLibraries xs @ detectLibraries ys"
  by (simp add: detectLibraries_concat [of "xs @ ys"] detectLibraries_concat [of xs, symmetric]
      detectLibraries_concat [of ys, symmetric])

lemma detectLibraries_Cons:
  "detectLibraries (e # cat) = detectLibraries [e] @ detectLibraries cat"
  using detectLibraries_append [of "[e]" cat] by simp

lemma detectLibraries_single:
  "detectLibraries [(name, lib)] =
     (case await_race (test_fn lib) 1000 of
        Inl e \<Rightarrow> []
      | Inr RFalse \<Rightarrow> []
      | Inr (RObject v) \<Rightarrow>
          [\<lparr>lib_id = test_id lib, lib_name = name, lib_version = v, lib_npm = test_npm lib\<rparr>])"
  by (simp add: detectLibraries_def detectLibraries_run_def setTimeout_def Let_def
      split: sum.splits test_result.splits)

text \<open>The result of the loop is what the entries report, one after the other.\<close>

lemma detectLibraries_reported: "detectLibraries cat = concat (map reported cat)"
proof -
  have "detectLibraries [e] = reported e" for e
    by (cases e)
       (simp add: detectLibraries_single reported_def split: sum.splits test_result.splits)
  then show ?thesis
    using detectLibraries_concat [of cat] by simp
qed

text \<open>One pass of the loop body: the timer is cleared unless the \<open>await\<close> raised.\<close>

lemma detectLibraries_loop_single_calls:
  "calls (snd (detectLibraries_loop [(name, lib)] libraries ts)) =
     calls ts @ SetTimeout (Suc (last_handle ts)) 1000 #
       (case await_race (test_fn lib) 1000 of
          Inl e \<Rightarrow> []
        | Inr r \<Rightarrow> [ClearTimeout (Suc (last_handle ts))])"
  by (simp add: setTimeout_def clearTimeout_def Let_def split: sum.splits test_result.splits)

lemma loop_created_length:
  "length (created (calls (snd (detectLibraries_loop cat libraries ts)))) =
     length (created (calls ts)) + length cat"
  by (induction cat libraries ts rule: detectLibraries_loop.induct)
     (auto simp: setTimeout_def clearTimeout_def Let_def created_append
        split: sum.splits test_result.splits)

lemma names_subset: "set (map lib_name (detectLibraries cat)) \<subseteq> set (map fst cat)"
proof (induction cat)
  case Nil
  show ?case by (simp add: detectLibraries_def detectLibraries_run_def)
next
  case (Cons e cat)
  obtain name lib where e: "e = (name, lib)" by (cases e)
  have "set (map lib_name (detectLibraries [e])) \<subseteq> {name}"
    by (auto simp: e detectLibraries_single split: sum.splits test_result.splits)
  with Cons show ?case
    unfolding detectLibraries_Cons [of e cat] by (auto simp: e)
qed

lemma detectLibraries_names:
  "map lib_name (detectLibraries cat) =
     map fst (filter (\<lambda>(name, lib). probe_matches (test_fn lib)) cat)"
proof (induction cat)
  case Nil
  show ?case by (simp add: detectLibraries_def detectLibraries_run_def)
next
  case (Cons e cat)
  obtain name lib where e: "e = (name, lib)" by (cases e)
  have "map lib_name (detectLibraries [(name, lib)]) =
      (if probe_matches (test_fn lib) then [name] else [])"
    by (simp add: detectLibraries_single probe_matches_def split: sum.splits test_result.splits)
  with Cons show ?case
    unfolding e detectLibraries_Cons [of "(name, lib)" cat] by simp
qed

lemma detectLibraries_member:
  assumes "(name, lib) \<in> set cat" and "await_race (test_fn lib) 1000 = Inr (RObject v)"
  shows "\<lparr>lib_id = test_id lib, lib_name = name, lib_version = v, lib_npm = test_npm lib\<rparr>
           \<in> set (detectLibraries cat)"
proof -
  from assms(1) obtain pre post where "cat = pre @ (name, lib) # post"
    by (auto simp: in_set_conv_decomp)
  then have "detectLibraries cat =
      detectLibraries pre @ detectLibraries [(name, lib)] @ detectLibraries post"
    using detectLibraries_append [of pre "(name, lib) # post"]
      detectLibraries_Cons [of "(name, lib)" post] by simp
  with assms(2) show ?thesis by (simp add: detectLibraries_single)
qed

lemma detectLibraries_origin:
  "l \<in> set (detectLibraries cat) \<Longrightarrow>
     \<exists>(name, lib)\<in>set cat. lib_id l = test_id lib \<and> lib_name l = name \<and> lib_npm l = test_npm lib"
proof (induction cat)
  case Nil
  then show ?case by (simp add: detectLibraries_def detectLibraries_run_def)
next
  case (Cons e cat)
  obtain name lib where e: "e = (name, lib)" by (cases e)
  from Cons.prems have "l \<in> set (detectLibraries [(name, lib)]) \<or> l \<in> set (detectLibraries cat)"
    unfolding e detectLibraries_Cons [of "(name, lib)" cat] by simp
  then show ?case
  proof
    assume "l \<in> set (detectLibraries [(name, lib)])"
    then show ?thesis
      by (auto simp: e detectLibraries_single split: sum.splits test_result.splits)
  next
    assume "l \<in> set (detectLibraries cat)"
    with Cons.IH show ?thesis by auto
  qed
qed

subsection \<open>The orchestrator\<close>

lemma evaluate_page: "evaluate (page cat) f = Resolved (Libraries (f cat))"
  by (simp add: page_def)

lemma collectStacks_Resolved:
  assumes "collectStacks ectx log = Resolved stacks"
  shows "\<exists>libs hdrs r. evaluate ectx detectLibraries = Resolved (Libraries libs) \<and>
           getDocumentHeaders log = Inr hdrs \<and> detectServer hdrs = Inr r \<and>
           stacks = map stack_of_library libs @ (case r of None \<Rightarrow> [] | Some s \<Rightarrow> [s])"
  using assms
  by (auto simp: collectStacks_def Let_def
      split: outcome.splits evaluated.splits sum.splits option.splits)

subsection \<open>The example run\<close>

lemma example_libraries:
  "detectLibraries example_catalog =
     [\<lparr>lib_id = ''react'', lib_name = ''React'',
        lib_version = VNumber (Integer (Abs_safe_integer 3)), lib_npm = Some ''react''\<rparr>,
      \<lparr>lib_id = ''vue'', lib_name = ''Vue'', lib_version = VString ''2.6.1'', lib_npm = Some ''vue''\<rparr>]"
  by (simp add: example_catalog_def example_react_def example_broken_def example_vue_def
      detectLibraries_def detectLibraries_run_def setTimeout_def clearTimeout_def)

lemma example_headers:
  "getDocumentHeaders example_log = Inr (Some [(''Server'', Str ''cloudflare'')])"
  by (simp add: example_log_def script_entry_def document_entry_def)

lemma example_server:
  "detectServer (Some [(''Server'', Str ''cloudflare'')]) =
     Inr (Some \<lparr>detector = ''server'', stack_id = ''cloudflare'', stack_name = ''Cloudflare'',
        stack_version = None, stack_npm = None\<rparr>)"
  by (simp add: detectServer_def SERVERS_def matched_def header_matches_def fromEntries_def
      startsWith_def toLowerCase_def toLowerCase_char_def)

lemma example_collect:
  "collectStacks (page example_catalog) example_log = Resolved example_stacks"
  by (simp add: collectStacks_def example_libraries example_headers example_server page_def
      example_stacks_def stack_of_library_def or_undefined_def String_number_def
      String_integer_def Abs_safe_integer_inverse digits.simps)


section \<open>The public entry point\<close>

text \<open>
  C1: \<open>getArtifact\<close> never rejects, whatever the execution context and the log are. When
  \<open>collectStacks\<close> rejects, be it because \<open>evaluate\<close> rejected or because the log is
  malformed, \<open>getArtifact\<close> resolves with the empty sequence; and it resolves whenever
  \<open>evaluate\<close> settles at all.
\<close>

theorem getArtifact_never_rejects:
  "getArtifact ctx \<noteq> Rejected e \<and>
   (collectStacks (driver_executionContext ctx) (dependencies_DevtoolsLog ctx) = Rejected e
      \<longrightarrow> getArtifact ctx = Resolved []) \<and>
   (evaluate (driver_executionContext ctx) detectLibraries = Rejected e
      \<longrightarrow> getArtifact ctx = Resolved []) \<and>
   (evaluate (driver_executionContext ctx) detectLibraries = Resolved (Libraries libs) \<and>
    getDocumentHeaders (dependencies_DevtoolsLog ctx) = Inl e
      \<longrightarrow> getArtifact ctx = Resolved []) \<and>
   (evaluate (driver_executionContext ctx) detectLibraries \<noteq> Pending
      \<longrightarrow> (\<exists>stacks. getArtifact ctx = Resolved stacks))"
  by (auto simp: getArtifact_def collectStacks_def Let_def
      split: outcome.splits evaluated.splits sum.splits option.splits)

text \<open>
  The theorem at a context whose \<open>evaluate\<close> rejects, and at a page with a log entry that
  has no \<open>params\<close>.
\<close>

theorem getArtifact_never_rejects_witness:
  "evaluate (driver_executionContext rejecting_context) detectLibraries =
     Rejected (Error ''context destroyed'') \<and>
   getArtifact rejecting_context = Resolved [] \<and>
   evaluate (driver_executionContext malformed_log_context) detectLibraries =
     Resolved (Libraries (detectLibraries example_catalog)) \<and>
   getDocumentHeaders (dependencies_DevtoolsLog malformed_log_context) = Inl TypeError \<and>
   getArtifact malformed_log_context = Resolved []"
proof -
  have r: "evaluate (driver_executionContext rejecting_context) detectLibraries =
      Rejected (Error ''context destroyed'')"
    by (simp add: rejecting_context_def)
  have m1: "evaluate (driver_executionContext malformed_log_context) detectLibraries =
      Resolved (Libraries (detectLibraries example_catalog))"
    by (simp add: malformed_log_context_def page_def)
  have m2: "getDocumentHeaders (dependencies_DevtoolsLog malformed_log_context) = Inl TypeError"
    by (simp add: malformed_log_context_def malformed_entry_def)
  from r getArtifact_never_rejects
    [where ctx = rejecting_context and e = "Error ''context destroyed''"]
  have a: "getArtifact rejecting_context = Resolved []" by blast
  from m1 m2 getArtifact_never_rejects
    [where ctx = malformed_log_context and e = TypeError
       and libs = "detectLibraries example_catalog"]
  have b: "getArtifact malformed_log_context = Resolved []" by blast
  from r m1 m2 a b show ?thesis by simp
qed

section \<open>The library detector\<close>

text \<open>
  C2: a probe that throws, or whose promise is rejected, is no match for its own entry
  only. The entry contributes nothing and the loop goes on: the result is exactly what the
  entries before it and after it report, each matching entry among them with its library,
  in the order of the catalog; no library of the failing entry's name is reported; and one
  timer is created for each entry of the catalog.
\<close>

theorem probe_exception_is_no_match:
  assumes "test_fn lib = Throws e \<or> test_fn lib = Promise_after t (Rejects e)"
  shows "detectLibraries [(name, lib)] = [] \<and>
         detectLibraries (pre @ (name, lib) # post) = detectLibraries pre @ detectLibraries post \<and>
         detectLibraries (pre @ (name, lib) # post) = concat (map reported (pre @ post)) \<and>
         map lib_name (detectLibraries (pre @ (name, lib) # post)) =
           map fst (filter (\<lambda>(n, l). probe_matches (test_fn l)) (pre @ post)) \<and>
         (\<forall>(n, l)\<in>set (pre @ post). \<forall>v.
            await_race (test_fn l) 1000 = Inr (RObject v) \<longrightarrow>
            \<lparr>lib_id = test_id l, lib_name = n, lib_version = v, lib_npm = test_npm l\<rparr>
              \<in> set (detectLibraries (pre @ (name, lib) # post))) \<and>
         (distinct (map fst (pre @ (name, lib) # post)) \<longrightarrow>
            name \<notin> set (map lib_name (detectLibraries (pre @ (name, lib) # post)))) \<and>
         length (created (calls (snd (detectLibraries_run (pre @ (name, lib) # post))))) =
           length pre + 1 + length post"
proof -
  have single: "detectLibraries [(name, lib)] = []"
    using assms by (auto simp: detectLibraries_single)
  have whole: "detectLibraries (pre @ (name, lib) # post) = detectLibraries pre @ detectLibraries post"
    using detectLibraries_append [of pre "(name, lib) # post"]
      detectLibraries_Cons [of "(name, lib)" post] single by simp
  have exact: "detectLibraries (pre @ (name, lib) # post) = concat (map reported (pre @ post))"
    unfolding whole by (simp add: detectLibraries_reported)
  have no_match: "\<not> probe_matches (test_fn lib)"
    using assms by (auto simp: probe_matches_def split: if_splits)
  have names: "map lib_name (detectLibraries (pre @ (name, lib) # post)) =
      map fst (filter (\<lambda>(n, l). probe_matches (test_fn l)) (pre @ post))"
    using no_match by (simp add: detectLibraries_names)
  have others: "\<forall>(n, l)\<in>set (pre @ post). \<forall>v.
      await_race (test_fn l) 1000 = Inr (RObject v) \<longrightarrow>
      \<lparr>lib_id = test_id l, lib_name = n, lib_version = v, lib_npm = test_npm l\<rparr>
        \<in> set (detectLibraries (pre @ (name, lib) # post))"
  proof (intro ballI, clarify)
    fix n l v
    assume "(n, l) \<in> set (pre @ post)" and "await_race (test_fn l) 1000 = Inr (RObject v)"
    then show "\<lparr>lib_id = test_id l, lib_name = n, lib_version = v, lib_npm = test_npm l\<rparr>
        \<in> set (detectLibraries (pre @ (name, lib) # post))"
      using detectLibraries_member [of n l "pre @ (name, lib) # post" v] by auto
  qed
  have absent: "name \<notin> set (map lib_name (detectLibraries (pre @ (name, lib) # post)))"
    if "distinct (map fst (pre @ (name, lib) # post))"
  proof -
    from that have "name \<notin> set (map fst pre)" and "name \<notin> set (map fst post)" by auto
    with names_subset [of pre] names_subset [of post] show ?thesis
      unfolding whole by auto
  qed
  have timers: "length (created (calls (snd (detectLibraries_run (pre @ (name, lib) # post))))) =
      length pre + 1 + length post"
    by (simp add: detectLibraries_run_def loop_created_length)
  from single whole exact names others absent timers show ?thesis by blast
qed

text \<open>
  The theorem at a catalog of three entries, the second of which throws: the libraries of
  the first and of the third entry are reported. And the theorem at a probe whose promise
  is rejected after 10 ms.
\<close>

theorem probe_exception_is_no_match_witness:
  "test_fn example_rejecting = Promise_after 10 (Rejects (Error ''boom'')) \<and>
   detectLibraries [(''Rejecting'', example_rejecting)] = [] \<and>
   test_fn example_broken = Throws (Error ''boom'') \<and>
   distinct (map fst example_catalog) \<and>
   detectLibraries example_catalog =
     [\<lparr>lib_id = ''react'', lib_name = ''React'',
        lib_version = VNumber (Integer (Abs_safe_integer 3)), lib_npm = Some ''react''\<rparr>,
      \<lparr>lib_id = ''vue'', lib_name = ''Vue'', lib_version = VString ''2.6.1'',
        lib_npm = Some ''vue''\<rparr>] \<and>
   map lib_name (detectLibraries example_catalog) = [''React'', ''Vue''] \<and>
   await_race (test_fn example_vue) 1000 = Inr (RObject (VString ''2.6.1'')) \<and>
   \<lparr>lib_id = ''vue'', lib_name = ''Vue'', lib_version = VString ''2.6.1'', lib_npm = Some ''vue''\<rparr>
     \<in> set (detectLibraries example_catalog) \<and>
   ''Broken'' \<notin> set (map lib_name (detectLibraries example_catalog)) \<and>
   length (created (calls (snd (detectLibraries_run example_catalog)))) = 3"
proof -
  have t: "test_fn example_broken = Throws (Error ''boom'')"
    by (simp add: example_broken_def)
  then have h: "test_fn example_broken = Throws (Error ''boom'') \<or>
      test_fn example_broken = Promise_after 0 (Rejects (Error ''boom''))" ..
  have cat: "example_catalog = [(''React'', example_react)] @ (''Broken'', example_broken) #
      [(''Vue'', example_vue)]"
    by (simp add: example_catalog_def)
  have d: "distinct (map fst example_catalog)"
    by (simp add: example_catalog_def)
  have won: "await_race (test_fn example_vue) 1000 = Inr (RObject (VString ''2.6.1''))"
    by (simp add: example_vue_def)
  have vue: "test_id example_vue = ''vue''" "test_npm example_vue = Some ''vue''"
    by (simp_all add: example_vue_def)
  have rest: "concat (map reported ([(''React'', example_react)] @ [(''Vue'', example_vue)])) =
      [\<lparr>lib_id = ''react'', lib_name = ''React'',
         lib_version = VNumber (Integer (Abs_safe_integer 3)), lib_npm = Some ''react''\<rparr>,
       \<lparr>lib_id = ''vue'', lib_name = ''Vue'', lib_version = VString ''2.6.1'',
         lib_npm = Some ''vue''\<rparr>]"
    by (simp add: reported_def example_react_def example_vue_def)
  have matching: "map fst (filter (\<lambda>(n, l). probe_matches (test_fn l))
      ([(''React'', example_react)] @ [(''Vue'', example_vue)])) = [''React'', ''Vue'']"
    by (simp add: probe_matches_def example_react_def example_vue_def)
  note r = probe_exception_is_no_match
    [where lib = example_broken and e = "Error ''boom''" and t = 0 and name = "''Broken''"
       and pre = "[(''React'', example_react)]" and post = "[(''Vue'', example_vue)]",
     OF h, folded cat]
  from r rest have a: "detectLibraries example_catalog =
      [\<lparr>lib_id = ''react'', lib_name = ''React'',
         lib_version = VNumber (Integer (Abs_safe_integer 3)), lib_npm = Some ''react''\<rparr>,
       \<lparr>lib_id = ''vue'', lib_name = ''Vue'', lib_version = VString ''2.6.1'',
         lib_npm = Some ''vue''\<rparr>]"
    by metis
  from r matching have n: "map lib_name (detectLibraries example_catalog) = [''React'', ''Vue'']"
    by metis
  from r have "\<forall>(n, l)\<in>set ([(''React'', example_react)] @ [(''Vue'', example_vue)]). \<forall>v.
      await_race (test_fn l) 1000 = Inr (RObject v) \<longrightarrow>
      \<lparr>lib_id = test_id l, lib_name = n, lib_version = v, lib_npm = test_npm l\<rparr>
        \<in> set (detectLibraries example_catalog)"
    by blast
  with won have "\<lparr>lib_id = test_id example_vue, lib_name = ''Vue'', lib_version = VString ''2.6.1'',
      lib_npm = test_npm example_vue\<rparr> \<in> set (detectLibraries example_catalog)"
    by auto
  then have m: "\<lparr>lib_id = ''vue'', lib_name = ''Vue'', lib_version = VString ''2.6.1'',
      lib_npm = Some ''vue''\<rparr> \<in> set (detectLibraries example_catalog)"
    by (simp add: vue)
  from r d have b: "''Broken'' \<notin> set (map lib_name (detectLibraries example_catalog))"
    by blast
  from r have c: "length (created (calls (snd (detectLibraries_run example_catalog)))) = 3"
    by simp
  have t2: "test_fn example_rejecting = Promise_after 10 (Rejects (Error ''boom''))"
    by (simp add: example_rejecting_def)
  then have h2: "test_fn example_rejecting = Throws (Error ''boom'') \<or>
      test_fn example_rejecting = Promise_after 10 (Rejects (Error ''boom''))" ..
  from probe_exception_is_no_match
    [where lib = example_rejecting and e = "Error ''boom''" and t = 10
       and name = "''Rejecting''" and pre = "[]" and post = "[]", OF h2]
  have r2: "detectLibraries [(''Rejecting'', example_rejecting)] = []"
    by blast
  from t2 r2 t d a n won m b c show ?thesis by blast
qed

text \<open>
  C3: the timer of a probe is cleared when the race ends with a value, also when the
  timer itself won. It is not cleared when the probe throws or its promise is rejected:
  the only timer call of such a run is \<open>setTimeout\<close>. In the catalog of three entries the
  timers 1, 2 and 3 are created and only 1 and 3 are cleared.
\<close>

theorem timer_not_cleared_when_probe_throws:
  "calls (snd (detectLibraries_run [(''Broken'', example_broken)])) = [SetTimeout 1 1000] \<and>
   calls (snd (detectLibraries_run [(''Rejecting'', example_rejecting)])) = [SetTimeout 1 1000] \<and>
   calls (snd (detectLibraries_run [(''React'', example_react)])) =
     [SetTimeout 1 1000, ClearTimeout 1] \<and>
   calls (snd (detectLibraries_run [(''Hanging'', example_hanging)])) =
     [SetTimeout 1 1000, ClearTimeout 1] \<and>
   created (calls (snd (detectLibraries_run example_catalog))) = [1, 2, 3] \<and>
   cleared (calls (snd (detectLibraries_run example_catalog))) = [1, 3]"
  by (simp add: detectLibraries_run_def setTimeout_def clearTimeout_def example_broken_def
      example_rejecting_def example_react_def example_hanging_def example_vue_def
      example_catalog_def)

section \<open>The server detector\<close>

text \<open>
  C4, as the code has it: for a matcher whose header name is in lower case, the matcher is
  satisfied exactly when the named header exists (names compared without regard to case,
  the last one of that name counting), its value is not empty, and its lower-cased value
  starts with the required substring. An empty required substring is satisfied exactly
  when the header is present with a value that is not empty.
\<close>

theorem header_matcher_satisfied_iff:
  assumes "toLowerCase header = header"
  shows "(header_matches (documentHeaders hs) (header, required) \<longleftrightarrow>
           (\<exists>v. header_lookup hs header = Some v \<and> v \<noteq> [] \<and>
                startsWith (toLowerCase v) required))
       \<and> (header_matches (documentHeaders hs) (header, []) \<longleftrightarrow>
           (\<exists>v. header_lookup hs header = Some v \<and> v \<noteq> []))"
proof -
  have look: "documentHeaders hs header = map_option toLowerCase (header_lookup hs header)"
    using documentHeaders_lookup [of hs header] assms by simp
  show ?thesis
    by (cases "header_lookup hs header")
       (simp_all add: header_matches_def look toLowerCase_Nil_iff startsWith_def)
qed

text \<open>The theorem at the headers \<open>{Server: "NGINX"}\<close> and the matcher of \<open>nginx\<close>.\<close>

theorem header_matcher_satisfied_iff_witness:
  "toLowerCase ''server'' = ''server'' \<and>
   header_matches (documentHeaders [(''Server'', ''NGINX'')]) (''server'', ''nginx'') \<and>
   (\<exists>v. header_lookup [(''Server'', ''NGINX'')] ''server'' = Some v \<and> v \<noteq> [] \<and>
        startsWith (toLowerCase v) ''nginx'')"
proof -
  have h: "toLowerCase ''server'' = ''server''"
    by (simp add: toLowerCase_def toLowerCase_char_def)
  have m: "header_matches (documentHeaders [(''Server'', ''NGINX'')]) (''server'', ''nginx'')"
    by (simp add: header_matches_def documentHeaders_def fromEntries_def startsWith_def
        toLowerCase_def toLowerCase_char_def)
  from header_matcher_satisfied_iff [OF h, of "[(''Server'', ''NGINX'')]" "''nginx''"] m h
  show ?thesis by blast
qed

text \<open>
  The claim as the specification words it fails for a header with an empty value: the
  header \<open>X-Akamai-Transformed\<close> is present, its value starts with the empty substring,
  and yet the matcher of \<open>akamai\<close> is not satisfied and no server is detected.
\<close>

theorem header_matcher_counterexample:
  "spec_header_matches [(''X-Akamai-Transformed'', [])] (''x-akamai-transformed'', []) \<and>
   \<not> header_matches (documentHeaders [(''X-Akamai-Transformed'', [])])
       (''x-akamai-transformed'', []) \<and>
   detectServer (Some [(''X-Akamai-Transformed'', Str [])]) = Inr None"
  by (simp add: spec_header_matches_def header_lookup_def header_matches_def documentHeaders_def
      fromEntries_def startsWith_def toLowerCase_def toLowerCase_char_def detectServer_def
      SERVERS_def matched_def)

text \<open>
  C5: a signature matches when one of its header matchers is satisfied. When no signature
  of the table matches, the detector returns nothing; otherwise it returns the first
  matching signature of the table as \<open>{detector: "server", id, name}\<close>.
\<close>

theorem detectServer_first_match:
  "((\<forall>s\<in>set SERVERS. \<not> matched (documentHeaders hs) s) \<longrightarrow>
      detectServer (Some (typed_headers hs)) = Inr None) \<and>
   (i < length SERVERS \<and> matched (documentHeaders hs) (SERVERS ! i) \<and>
    (\<forall>j<i. \<not> matched (documentHeaders hs) (SERVERS ! j)) \<longrightarrow>
      detectServer (Some (typed_headers hs)) =
        Inr (Some \<lparr>detector = ''server'', stack_id = server_id (SERVERS ! i),
                    stack_name = server_name (SERVERS ! i),
                    stack_version = None, stack_npm = None\<rparr>)) \<and>
   (matched (documentHeaders hs) s \<longleftrightarrow>
      (\<exists>m\<in>set (server_headers s). header_matches (documentHeaders hs) m))"
  by (simp add: detectServer_typed detectServer_loop_None detectServer_loop_first
      matched_def list_ex_iff)

text \<open>
  The theorem at headers without any known header, and at \<open>{Server: "NGINX"}\<close>, where the
  first matching signature is the sixth of the table.
\<close>

theorem detectServer_first_match_witness:
  "\<not> list_ex (matched (documentHeaders [(''Content-Type'', ''text/html'')])) SERVERS \<and>
   detectServer (Some (typed_headers [(''Content-Type'', ''text/html'')])) = Inr None \<and>
   (5::nat) < length SERVERS \<and>
   matched (documentHeaders [(''Server'', ''NGINX'')]) (SERVERS ! 5) \<and>
   \<not> list_ex (\<lambda>j. matched (documentHeaders [(''Server'', ''NGINX'')]) (SERVERS ! j)) [0..<5] \<and>
   detectServer (Some (typed_headers [(''Server'', ''NGINX'')])) =
     Inr (Some \<lparr>detector = ''server'', stack_id = ''nginx'', stack_name = ''Nginx'',
                 stack_version = None, stack_npm = None\<rparr>)"
proof -
  have none: "\<forall>s\<in>set SERVERS. \<not> matched (documentHeaders [(''Content-Type'', ''text/html'')]) s"
    by (simp add: SERVERS_def matched_def header_matches_def documentHeaders_def fromEntries_def
        toLowerCase_def toLowerCase_char_def)
  have len: "(5::nat) < length SERVERS"
    by (simp add: SERVERS_def)
  have hit: "matched (documentHeaders [(''Server'', ''NGINX'')]) (SERVERS ! 5)"
    by (simp add: SERVERS_def matched_def header_matches_def documentHeaders_def fromEntries_def
        startsWith_def toLowerCase_def toLowerCase_char_def)
  have before: "\<forall>j<5. \<not> matched (documentHeaders [(''Server'', ''NGINX'')]) (SERVERS ! j)"
  proof (intro allI impI)
    fix j :: nat
    assume "j < 5"
    then have "j = 0 \<or> j = 1 \<or> j = 2 \<or> j = 3 \<or> j = 4" by arith
    then show "\<not> matched (documentHeaders [(''Server'', ''NGINX'')]) (SERVERS ! j)"
      by (elim disjE)
         (simp_all add: SERVERS_def matched_def header_matches_def documentHeaders_def
            fromEntries_def startsWith_def toLowerCase_def toLowerCase_char_def)
  qed
  have id5: "server_id (SERVERS ! 5) = ''nginx''" and name5: "server_name (SERVERS ! 5) = ''Nginx''"
    by (simp_all add: SERVERS_def)
  from none detectServer_first_match [where hs = "[(''Content-Type'', ''text/html'')]"]
  have a: "detectServer (Some (typed_headers [(''Content-Type'', ''text/html'')])) = Inr None"
    by blast
  from len hit before detectServer_first_match [where hs = "[(''Server'', ''NGINX'')]" and i = 5]
  have "detectServer (Some (typed_headers [(''Server'', ''NGINX'')])) =
      Inr (Some \<lparr>detector = ''server'', stack_id = server_id (SERVERS ! 5),
                  stack_name = server_name (SERVERS ! 5),
                  stack_version = None, stack_npm = None\<rparr>)"
    by blast
  then have b: "detectServer (Some (typed_headers [(''Server'', ''NGINX'')])) =
      Inr (Some \<lparr>detector = ''server'', stack_id = ''nginx'', stack_name = ''Nginx'',
                  stack_version = None, stack_npm = None\<rparr>)"
    by (simp add: id5 name5)
  from none have none': "\<not> list_ex (matched (documentHeaders [(''Content-Type'', ''text/html'')])) SERVERS"
    by (simp add: list_ex_iff)
  from before have before':
    "\<not> list_ex (\<lambda>j. matched (documentHeaders [(''Server'', ''NGINX'')]) (SERVERS ! j)) [0..<5]"
    by (simp add: list_ex_iff)
  from none' a len hit before' b show ?thesis by blast
qed

section \<open>The document headers\<close>

text \<open>
  C6: in a well-typed log, \<open>getDocumentHeaders\<close> returns the headers of the first entry
  whose method is \<open>Network.responseReceived\<close> and whose type is \<open>Document\<close>, passing over
  every entry before it, and returns the empty mapping when the log has no such entry.
\<close>

theorem getDocumentHeaders_first_document:
  assumes "\<forall>e\<in>set log. well_typed_entry e"
  shows "((\<forall>e\<in>set log. \<not> is_document_response e) \<longrightarrow> getDocumentHeaders log = Inr (Some [])) \<and>
         (log = pre @ entry # post \<and> (\<forall>e\<in>set pre. \<not> is_document_response e) \<and>
          is_document_response entry \<and> entry_params entry = Some p \<and> params_response p = Some r
            \<longrightarrow> getDocumentHeaders log = Inr (response_headers r))"
proof (intro conjI impI)
  assume "\<forall>e\<in>set log. \<not> is_document_response e"
  with assms getDocumentHeaders_skip [of log "[]"] show "getDocumentHeaders log = Inr (Some [])"
    by simp
next
  assume a: "log = pre @ entry # post \<and> (\<forall>e\<in>set pre. \<not> is_document_response e) \<and>
          is_document_response entry \<and> entry_params entry = Some p \<and> params_response p = Some r"
  with assms have "getDocumentHeaders log = getDocumentHeaders (entry # post)"
    using getDocumentHeaders_skip [of pre "entry # post"] by simp
  also from a have "\<dots> = Inr (response_headers r)"
    by (auto simp: is_document_response_def)
  finally show "getDocumentHeaders log = Inr (response_headers r)" .
qed

text \<open>
  The theorem at a log with a \<open>Script\<close> response followed by a \<open>Document\<close> response, and
  at the log with the \<open>Script\<close> response alone.
\<close>

theorem getDocumentHeaders_first_document_witness:
  "list_all well_typed_entry example_log \<and>
   example_log = [script_entry] @ document_entry # [] \<and>
   \<not> is_document_response script_entry \<and>
   is_document_response document_entry \<and>
   getDocumentHeaders example_log = Inr (Some [(''Server'', Str ''cloudflare'')]) \<and>
   getDocumentHeaders [script_entry] = Inr (Some [])"
proof -
  let ?p = "\<lparr>params_type = ''Document'',
      params_response = Some \<lparr>response_headers = Some [(''Server'', Str ''cloudflare'')]\<rparr>\<rparr>"
  let ?r = "\<lparr>response_headers = Some [(''Server'', Str ''cloudflare'')]\<rparr>"
  have wt: "\<forall>e\<in>set example_log. well_typed_entry e"
    by (simp add: example_log_def script_entry_def document_entry_def well_typed_entry_def)
  have wt1: "\<forall>e\<in>set [script_entry]. well_typed_entry e"
    by (simp add: script_entry_def well_typed_entry_def)
  have split: "example_log = [script_entry] @ document_entry # []"
    by (simp add: example_log_def)
  have skip: "\<forall>e\<in>set [script_entry]. \<not> is_document_response e"
    by (simp add: script_entry_def is_document_response_def)
  have doc: "is_document_response document_entry"
    by (simp add: document_entry_def is_document_response_def)
  have p: "entry_params document_entry = Some ?p"
    by (simp add: document_entry_def)
  have r: "params_response ?p = Some ?r"
    by simp
  from split skip doc p r
    getDocumentHeaders_first_document [OF wt, where pre = "[script_entry]"
      and entry = document_entry and post = "[]" and p = ?p and r = ?r]
  have a: "getDocumentHeaders example_log = Inr (Some [(''Server'', Str ''cloudflare'')])"
    by simp
  from skip getDocumentHeaders_first_document [OF wt1]
  have b: "getDocumentHeaders [script_entry] = Inr (Some [])"
    by blast
  from wt have wt': "list_all well_typed_entry example_log"
    by (simp add: list_all_iff)
  from skip have skip': "\<not> is_document_response script_entry"
    by simp
  from wt' split skip' doc a b show ?thesis by blast
qed

section \<open>The orchestrator\<close>

text \<open>
  C7: when \<open>collectStacks\<close> resolves, the artifact is the libraries that \<open>evaluate\<close>
  returned, in their order and each with detector \<open>js\<close>, followed by at most one entry with
  detector \<open>server\<close>, which is there exactly when the server detector returned a result. The
  libraries that \<open>detectLibraries\<close> returns are those of the catalog entries whose probe
  matched, in the order of the catalog.
\<close>

theorem collectStacks_order:
  "(collectStacks ectx log = Resolved stacks \<longrightarrow>
      (\<exists>libs srv hdrs. evaluate ectx detectLibraries = Resolved (Libraries libs) \<and>
         stacks = map stack_of_library libs @ srv \<and>
         (\<forall>s\<in>set (map stack_of_library libs). detector s = ''js'') \<and>
         length srv \<le> 1 \<and> (\<forall>s\<in>set srv. detector s = ''server'') \<and>
         getDocumentHeaders log = Inr hdrs \<and>
         detectServer hdrs = Inr (case srv of [] \<Rightarrow> None | s # rest \<Rightarrow> Some s))) \<and>
   map lib_name (detectLibraries cat) =
     map fst (filter (\<lambda>(name, lib). probe_matches (test_fn lib)) cat)"
proof (intro conjI impI)
  assume "collectStacks ectx log = Resolved stacks"
  from collectStacks_Resolved [OF this] obtain libs hdrs r where
    ev: "evaluate ectx detectLibraries = Resolved (Libraries libs)" and
    gd: "getDocumentHeaders log = Inr hdrs" and ds: "detectServer hdrs = Inr r" and
    st: "stacks = map stack_of_library libs @ (case r of None \<Rightarrow> [] | Some s \<Rightarrow> [s])"
    by blast
  let ?srv = "case r of None \<Rightarrow> [] | Some s \<Rightarrow> [s]"
  have js: "\<forall>s\<in>set (map stack_of_library libs). detector s = ''js''"
    by (simp add: stack_of_library_def)
  have len: "length ?srv \<le> 1" by (simp split: option.splits)
  have srv: "\<forall>s\<in>set ?srv. detector s = ''server''"
    using ds detectServer_Some by (auto split: option.splits)
  have again: "detectServer hdrs = Inr (case ?srv of [] \<Rightarrow> None | s # rest \<Rightarrow> Some s)"
    using ds by (simp split: option.splits)
  from ev st js len srv gd again
  show "\<exists>libs srv hdrs. evaluate ectx detectLibraries = Resolved (Libraries libs) \<and>
         stacks = map stack_of_library libs @ srv \<and>
         (\<forall>s\<in>set (map stack_of_library libs). detector s = ''js'') \<and>
         length srv \<le> 1 \<and> (\<forall>s\<in>set srv. detector s = ''server'') \<and>
         getDocumentHeaders log = Inr hdrs \<and>
         detectServer hdrs = Inr (case srv of [] \<Rightarrow> None | s # rest \<Rightarrow> Some s)"
    by blast
next
  show "map lib_name (detectLibraries cat) =
     map fst (filter (\<lambda>(name, lib). probe_matches (test_fn lib)) cat)"
    by (rule detectLibraries_names)
qed

text \<open>
  The theorem at the page with the catalog of three entries and the log with a document
  served by Cloudflare: two library entries, then the server entry.
\<close>

theorem collectStacks_order_witness:
  "collectStacks (page example_catalog) example_log = Resolved example_stacks \<and>
   (\<exists>libs srv hdrs.
      evaluate (page example_catalog) detectLibraries = Resolved (Libraries libs) \<and>
      example_stacks = map stack_of_library libs @ srv \<and>
      (\<forall>s\<in>set (map stack_of_library libs). detector s = ''js'') \<and>
      length srv \<le> 1 \<and> (\<forall>s\<in>set srv. detector s = ''server'') \<and>
      getDocumentHeaders example_log = Inr hdrs \<and>
      detectServer hdrs = Inr (case srv of [] \<Rightarrow> None | s # rest \<Rightarrow> Some s)) \<and>
   map lib_name (detectLibraries example_catalog) = [''React'', ''Vue'']"
proof -
  note c = example_collect
  have names: "map fst (filter (\<lambda>(name, lib). probe_matches (test_fn lib)) example_catalog) =
      [''React'', ''Vue'']"
    by (simp add: example_catalog_def example_react_def example_broken_def example_vue_def
        probe_matches_def)
  from c names collectStacks_order
    [where ectx = "page example_catalog" and log = example_log and stacks = example_stacks
       and cat = example_catalog]
  show ?thesis by simp
qed



text \<open>
  C9, as the code has it: when every entry of the catalog declares an id that is not empty,
  every entry of the artifact has an id that is not empty; and the artifact has at most one
  entry with detector \<open>server\<close>.
\<close>

theorem artifact_ids_nonempty:
  assumes "\<forall>(name, lib)\<in>set cat. test_id lib \<noteq> []"
    and "getArtifact \<lparr>driver_executionContext = page cat, dependencies_DevtoolsLog = log\<rparr>
           = Resolved stacks"
  shows "(\<forall>s\<in>set stacks. stack_id s \<noteq> []) \<and>
         length (filter (\<lambda>s. detector s = ''server'') stacks) \<le> 1"
proof (cases "collectStacks (page cat) log")
  case (Resolved st)
  with assms(2) have cs: "collectStacks (page cat) log = Resolved stacks"
    by (simp add: getArtifact_def)
  from collectStacks_Resolved [OF cs] obtain hdrs r where
    ds: "detectServer hdrs = Inr r" and
    st: "stacks = map stack_of_library (detectLibraries cat) @ (case r of None \<Rightarrow> [] | Some s \<Rightarrow> [s])"
    by (auto simp: evaluate_page)
  have js_id: "stack_id (stack_of_library l) \<noteq> []" if "l \<in> set (detectLibraries cat)" for l
    using detectLibraries_origin [OF that] assms(1) by (auto simp: stack_of_library_def)
  have js_det: "filter (\<lambda>s. detector s = ''server'') (map stack_of_library (detectLibraries cat)) = []"
    by (simp add: filter_empty_conv stack_of_library_def)
  show ?thesis
  proof (cases r)
    case None
    with st js_id js_det show ?thesis by auto
  next
    case (Some s)
    with ds detectServer_Some have "stack_id s \<noteq> []" by blast
    with Some st js_id js_det show ?thesis by auto
  qed
next
  case (Rejected e)
  with assms(2) show ?thesis by (auto simp: getArtifact_def)
next
  case Pending
  with assms(2) show ?thesis by (simp add: getArtifact_def)
qed

text \<open>The theorem at the example run.\<close>

theorem artifact_ids_nonempty_witness:
  "list_all (\<lambda>(name, lib). test_id lib \<noteq> []) example_catalog \<and>
   getArtifact \<lparr>driver_executionContext = page example_catalog,
                dependencies_DevtoolsLog = example_log\<rparr> = Resolved example_stacks \<and>
   list_all (\<lambda>s. stack_id s \<noteq> []) example_stacks \<and>
   length (filter (\<lambda>s. detector s = ''server'') example_stacks) \<le> 1"
proof -
  have ids: "\<forall>(name, lib)\<in>set example_catalog. test_id lib \<noteq> []"
    by (simp add: example_catalog_def example_react_def example_broken_def example_vue_def)
  have run: "getArtifact \<lparr>driver_executionContext = page example_catalog,
      dependencies_DevtoolsLog = example_log\<rparr> = Resolved example_stacks"
    by (simp add: getArtifact_def example_collect)
  from artifact_ids_nonempty [OF ids run] ids run show ?thesis
    by (simp add: list_all_iff)
qed

text \<open>
  The claim as the specification words it fails for a catalog entry that declares an empty
  id: its id is copied to the artifact as it is.
\<close>

theorem empty_id_counterexample:
  "getArtifact \<lparr>driver_executionContext = page [(''Lib'', example_unnamed)],
                dependencies_DevtoolsLog = []\<rparr> =
     Resolved [\<lparr>detector = ''js'', stack_id = [], stack_name = ''Lib'',
                stack_version = None, stack_npm = None\<rparr>]"
  by (simp add: getArtifact_def collectStacks_def example_unnamed_def page_def
      detectLibraries_def detectLibraries_run_def setTimeout_def clearTimeout_def
      stack_of_library_def or_undefined_def detectServer_def SERVERS_def matched_def
      header_matches_def fromEntries_def)

text \<open>
  C10, as the code has it: a library whose version is the empty string gets an absent
  version, as one whose version is \<open>null\<close> does. The version is absent exactly for the
  falsy values that are not numbers: the empty string, \<open>null\<close> and an absent version.
\<close>

theorem version_absent_iff:
  "(lib_version lib = VString [] \<longrightarrow> stack_version (stack_of_library lib) = None) \<and>
   (lib_version lib = VNull \<longrightarrow> stack_version (stack_of_library lib) = None) \<and>
   (stack_version (stack_of_library lib) = None \<longleftrightarrow>
      falsy (lib_version lib) \<and> (\<forall>n. lib_version lib \<noteq> VNumber n)) \<and>
   (await_race (test_fn t) 1000 = Inr (RObject (VString [])) \<longrightarrow>
      map stack_version (map stack_of_library (detectLibraries [(name, t)])) = [None])"
  by (cases "lib_version lib")
     (auto simp: stack_of_library_def or_undefined_def falsy_def detectLibraries_single)

text \<open>
  The theorem at a library whose probe reports the empty string as its version, and at a
  library with version \<open>null\<close>.
\<close>

theorem version_absent_iff_witness:
  "await_race (test_fn example_unversioned) 1000 = Inr (RObject (VString [])) \<and>
   map stack_version (map stack_of_library (detectLibraries [(''Lit'', example_unversioned)])) =
     [None] \<and>
   stack_version (stack_of_library
     \<lparr>lib_id = ''lit'', lib_name = ''Lit'', lib_version = VString [], lib_npm = None\<rparr>) = None \<and>
   stack_version (stack_of_library
     \<lparr>lib_id = ''lit'', lib_name = ''Lit'', lib_version = VNull, lib_npm = None\<rparr>) = None"
proof -
  have won: "await_race (test_fn example_unversioned) 1000 = Inr (RObject (VString []))"
    by (simp add: example_unversioned_def)
  from won version_absent_iff
    [where lib = "\<lparr>lib_id = ''lit'', lib_name = ''Lit'', lib_version = VString [], lib_npm = None\<rparr>"
       and t = example_unversioned and name = "''Lit''"]
  have a: "map stack_version (map stack_of_library (detectLibraries [(''Lit'', example_unversioned)])) =
      [None]"
    and b: "stack_version (stack_of_library
      \<lparr>lib_id = ''lit'', lib_name = ''Lit'', lib_version = VString [], lib_npm = None\<rparr>) = None"
    by simp_all
  from version_absent_iff
    [where lib = "\<lparr>lib_id = ''lit'', lib_name = ''Lit'', lib_version = VNull, lib_npm = None\<rparr>"]
  have c: "stack_version (stack_of_library
      \<lparr>lib_id = ''lit'', lib_name = ''Lit'', lib_version = VNull, lib_npm = None\<rparr>) = None"
    by simp
  from won a b c show ?thesis by blast
qed

text \<open>
  The claim as the specification words it fails for the falsy number 0: it is a number, so
  it is reported as the string \<open>"0"\<close>.
\<close>

theorem version_zero_counterexample:
  "falsy (VNumber (Integer (Abs_safe_integer 0))) \<and>
   stack_version (stack_of_library
     \<lparr>lib_id = ''lib'', lib_name = ''Lib'',
      lib_version = VNumber (Integer (Abs_safe_integer 0)), lib_npm = None\<rparr>) = Some ''0''"
  by (simp add: falsy_def stack_of_library_def String_number_def String_integer_def
      Abs_safe_integer_inverse digits.simps)

end
